theory Spec2Isabelle
  imports Complex_Main "HOL-Library.Word" "HOL-Library.List_Lexorder" "HOL-Library.Char_ord"
begin

unbundle bit_operations_syntax

section \<open>Domain errors (internal/domain/shopee, errors)\<close>

text \<open>
  A Go \<open>error\<close> value is either a pointer to an \<open>APIError\<close> or some other error
  (\<open>errors.New\<close>, \<open>fmt.Errorf\<close>, the context's error), of which only the text returned
  by \<open>Error()\<close> matters here. The type assertion \<open>err.(*APIError)\<close> succeeds exactly on
  the first constructor.
\<close>

type_synonym ErrorCode = string

definition CodeAuthError :: ErrorCode where "CodeAuthError = ''error_auth''"
definition CodeInvalidSign :: ErrorCode where "CodeInvalidSign = ''error_sign''"
definition CodeInvalidTimestamp :: ErrorCode where "CodeInvalidTimestamp = ''error_timestamp''"
definition CodePermissionDenied :: ErrorCode where "CodePermissionDenied = ''error_permission''"
definition CodeInvalidParam :: ErrorCode where "CodeInvalidParam = ''error_param''"
definition CodeExceedLimit :: ErrorCode where "CodeExceedLimit = ''error_exceed_limit''"
definition CodeServerError :: ErrorCode where "CodeServerError = ''error_server''"
definition CodeNotFound :: ErrorCode where "CodeNotFound = ''error_not_found''"
definition CodeProductBanned :: ErrorCode where "CodeProductBanned = ''error_product_banned''"
definition CodeOrderCancelled :: ErrorCode where "CodeOrderCancelled = ''error_order_cancelled''"

record APIError =
  Code :: ErrorCode
  Message :: string
  RequestID :: string
  StatusCode :: int

datatype error = APIErr APIError | OtherErr string

definition ErrTokenExpired :: error where
  "ErrTokenExpired = OtherErr ''access token has expired''"

definition StatusTooManyRequests :: int where "StatusTooManyRequests = 429"
definition StatusServiceUnavailable :: int where "StatusServiceUnavailable = 503"
definition StatusUnauthorized :: int where "StatusUnauthorized = 401"

definition ErrorCode_IsRetryable :: "ErrorCode \<Rightarrow> bool" where
  "ErrorCode_IsRetryable c =
     (if c = CodeExceedLimit \<or> c = CodeServerError then True else False)"

definition ErrorCode_IsTokenError :: "ErrorCode \<Rightarrow> bool" where
  "ErrorCode_IsTokenError c = (c = CodeAuthError)"

definition APIError_IsRetryable :: "APIError \<Rightarrow> bool" where
  "APIError_IsRetryable e =
     (if ErrorCode_IsRetryable (Code e) then True
      else StatusCode e = StatusTooManyRequests \<or>
           StatusCode e = StatusServiceUnavailable \<or>
           StatusCode e \<ge> 500)"

text \<open>
  \<open>containsAny\<close>: for each candidate, every start index \<open>i\<close> with
  \<open>0 \<le> i \<le> len(s) - len(substr)\<close> is tried, and \<open>s[i:i+len(substr)]\<close> compared.
\<close>

definition containsAny :: "string \<Rightarrow> string list \<Rightarrow> bool" where
  "containsAny s substrs =
     list_ex (\<lambda>substr.
        length s \<ge> length substr \<and>
        list_ex (\<lambda>i. take (length substr) (drop i s) = substr)
                [0 ..< Suc (length s - length substr)]) substrs"

definition isTokenExpired :: "APIError \<Rightarrow> bool" where
  "isTokenExpired e =
     (if Code e \<noteq> CodeAuthError then False
      else containsAny (Message e) [''token expired'', ''invalid token'', ''access_token invalid''])"

definition isRefreshTokenExpired :: "APIError \<Rightarrow> bool" where
  "isRefreshTokenExpired e =
     (Code e = CodeInvalidParam \<and> containsAny (Message e) [''refresh_token'', ''invalid refresh''])"

definition NewAPIError :: "ErrorCode \<Rightarrow> string \<Rightarrow> int \<Rightarrow> APIError" where
  "NewAPIError code message statusCode =
     \<lparr>Code = code, Message = message, RequestID = [], StatusCode = statusCode\<rparr>"

definition NewAPIErrorWithRequestID :: "ErrorCode \<Rightarrow> string \<Rightarrow> int \<Rightarrow> string \<Rightarrow> APIError" where
  "NewAPIErrorWithRequestID code message statusCode requestID =
     \<lparr>Code = code, Message = message, RequestID = requestID, StatusCode = statusCode\<rparr>"

datatype ErrorCategory =
  CategoryAuthentication | CategoryRateLimit | CategoryServer
  | CategoryNotFound | CategoryValidation | CategoryUnknown

definition Category :: "APIError \<Rightarrow> ErrorCategory" where
  "Category e =
     (if Code e \<in> {CodeAuthError, CodeInvalidSign, CodeInvalidTimestamp, CodePermissionDenied}
        then CategoryAuthentication
      else if Code e = CodeExceedLimit then CategoryRateLimit
      else if Code e = CodeServerError then CategoryServer
      else if Code e \<in> {CodeNotFound, CodeProductBanned, CodeOrderCancelled} then CategoryNotFound
      else if Code e = CodeInvalidParam then CategoryValidation
      else CategoryUnknown)"

section \<open>Retry policy and executor (internal/domain/shopee, retry)\<close>

text \<open>
  A \<open>float64\<close> is a finite number, an infinity or NaN (the sign of zero plays no part
  here). Comparison is that of IEEE 754: every comparison with NaN is false.
\<close>

datatype float64 = Finite real | PosInf | NegInf | NaN

fun float64_gt :: "float64 \<Rightarrow> float64 \<Rightarrow> bool" where
  "float64_gt NaN y = False"
| "float64_gt x NaN = False"
| "float64_gt PosInf PosInf = False"
| "float64_gt PosInf y = True"
| "float64_gt x PosInf = False"
| "float64_gt NegInf y = False"
| "float64_gt (Finite x) NegInf = True"
| "float64_gt (Finite x) (Finite y) = (x > y)"

text \<open>
  What the Go runtime and its libraries compute is not code of this repository and is
  taken as given: the rounded arithmetic on \<open>float64\<close>, \<open>math.Pow\<close>, the double
  nearest to an integer beyond \<open>2^53\<close>, the value that the conversion of a float to
  \<open>int64\<close> yields when the float has no \<open>int64\<close> value (the language leaves it to the
  implementation), and the number \<open>rand.Float64()\<close> draws in the wait after a given
  attempt.
\<close>

record Runtime =
  f64_mul :: "float64 \<Rightarrow> float64 \<Rightarrow> float64"
  f64_add :: "float64 \<Rightarrow> float64 \<Rightarrow> float64"
  f64_sub :: "float64 \<Rightarrow> float64 \<Rightarrow> float64"
  f64_div :: "float64 \<Rightarrow> float64 \<Rightarrow> float64"
  math_Pow :: "float64 \<Rightarrow> float64 \<Rightarrow> float64"
  nearestDouble :: "int \<Rightarrow> real"
  indefinite :: "float64 \<Rightarrow> int"
  rand_Float64 :: "int \<Rightarrow> float64"

text \<open>
  The conversion \<open>float64(i)\<close> of an integer: exact up to \<open>2^53\<close> in absolute value,
  the nearest double beyond.
\<close>

definition float64_of_int :: "Runtime \<Rightarrow> int \<Rightarrow> float64" where
  "float64_of_int rt i =
     (if \<bar>i\<bar> \<le> 9007199254740992 then Finite (real_of_int i)
      else Finite (nearestDouble rt i))"

text \<open>
  \<open>time.Duration\<close> is a count of nanoseconds, an \<open>int\<close> here. The \<open>retryableErrors\<close>
  field is written by \<open>DefaultRetryPolicy\<close> and read nowhere; it is left out. The
  literal \<open>0.1\<close> of the default policy is the double nearest to one tenth.
\<close>

record RetryPolicy =
  maxAttempts :: int
  initialDelay :: int
  maxDelay :: int
  multiplier :: float64
  jitterFactor :: float64

definition Second :: int where "Second = 1000000000"

definition DefaultRetryPolicy :: RetryPolicy where
  "DefaultRetryPolicy =
     \<lparr>maxAttempts = 3, initialDelay = 1 * Second, maxDelay = 30 * Second,
      multiplier = Finite 2,
      jitterFactor = Finite (3602879701896397 / 36028797018963968)\<rparr>"

definition NoRetryPolicy :: RetryPolicy where
  "NoRetryPolicy =
     \<lparr>maxAttempts = 1, initialDelay = 0, maxDelay = 0, multiplier = Finite 0,
      jitterFactor = Finite 0\<rparr>"

definition WithMaxAttempts :: "RetryPolicy \<Rightarrow> int \<Rightarrow> RetryPolicy" where
  "WithMaxAttempts p n = p\<lparr>maxAttempts := n\<rparr>"

definition WithJitter :: "RetryPolicy \<Rightarrow> float64 \<Rightarrow> RetryPolicy" where
  "WithJitter p j = p\<lparr>jitterFactor := j\<rparr>"

definition ShouldRetry :: "RetryPolicy \<Rightarrow> error option \<Rightarrow> int \<Rightarrow> bool" where
  "ShouldRetry p err attempt =
     (if attempt \<ge> maxAttempts p then False
      else case err of
             None \<Rightarrow> False
           | Some (APIErr apiErr) \<Rightarrow> APIError_IsRetryable apiErr
           | Some (OtherErr _) \<Rightarrow> False)"

text \<open>
  The conversion \<open>time.Duration(delay)\<close> of a float discards the fraction when the
  result is an \<open>int64\<close>; for any other float (too large, infinite, NaN) the result is
  the implementation's.
\<close>

definition Duration_of_float :: "real \<Rightarrow> int" where
  "Duration_of_float x = (if 0 \<le> x then \<lfloor>x\<rfloor> else \<lceil>x\<rceil>)"

fun has_int64 :: "float64 \<Rightarrow> bool" where
  "has_int64 (Finite x) =
     (- 9223372036854775808 \<le> Duration_of_float x \<and> Duration_of_float x \<le> 9223372036854775807)"
| "has_int64 v = False"

definition Duration_of_float64 :: "Runtime \<Rightarrow> float64 \<Rightarrow> int" where
  "Duration_of_float64 rt v =
     (case v of
        Finite x \<Rightarrow> if has_int64 v then Duration_of_float x else indefinite rt v
      | _ \<Rightarrow> indefinite rt v)"

text \<open>
  The value of \<open>delay\<close> in \<open>DelayForAttempt\<close> after the steps "Calculate exponential
  delay" and "Apply jitter", for an attempt number above zero; \<open>r\<close> is the value
  \<open>rand.Float64()\<close> returns (drawn only when \<open>jitterFactor > 0\<close>).
\<close>

definition jitteredDelay :: "Runtime \<Rightarrow> RetryPolicy \<Rightarrow> int \<Rightarrow> float64 \<Rightarrow> float64" where
  "jitteredDelay rt p attempt r =
     (let delay = f64_mul rt (float64_of_int rt (initialDelay p))
                    (math_Pow rt (multiplier p) (float64_of_int rt (attempt - 1)))
      in if float64_gt (jitterFactor p) (Finite 0)
         then (let jitter = f64_mul rt (f64_mul rt delay (jitterFactor p))
                              (f64_sub rt (f64_mul rt r (Finite 2)) (Finite 1))
               in f64_add rt delay jitter)
         else delay)"

definition DelayForAttempt :: "Runtime \<Rightarrow> RetryPolicy \<Rightarrow> int \<Rightarrow> float64 \<Rightarrow> int" where
  "DelayForAttempt rt p attempt r =
     (if attempt \<le> 0 then 0
      else
        let delay = jitteredDelay rt p attempt r;
            delay = (if float64_gt delay (float64_of_int rt (maxDelay p))
                     then float64_of_int rt (maxDelay p) else delay)
        in Duration_of_float64 rt delay)"

text \<open>
  The delay as the specification words it, for comparison: the cap at \<open>maxDelay\<close> is
  applied to the exponential delay first and the jitter is added to the capped value.
\<close>

definition DelayForAttempt_cap_first :: "Runtime \<Rightarrow> RetryPolicy \<Rightarrow> int \<Rightarrow> float64 \<Rightarrow> int" where
  "DelayForAttempt_cap_first rt p attempt r =
     (if attempt \<le> 0 then 0
      else
        let delay = f64_mul rt (float64_of_int rt (initialDelay p))
                      (math_Pow rt (multiplier p) (float64_of_int rt (attempt - 1)));
            delay = (if float64_gt delay (float64_of_int rt (maxDelay p))
                     then float64_of_int rt (maxDelay p) else delay);
            delay = (if float64_gt (jitterFactor p) (Finite 0)
                     then f64_add rt delay
                            (f64_mul rt (f64_mul rt delay (jitterFactor p))
                               (f64_sub rt (f64_mul rt r (Finite 2)) (Finite 1)))
                     else delay)
        in Duration_of_float64 rt delay)"

text \<open>
  The context as the executor sees it: whether \<open>ctx.Done()\<close> wins the \<open>select\<close> of the
  wait that follows a given attempt, and the error \<open>ctx.Err()\<close> then reports.
\<close>

record Context =
  doneDuringWait :: "int \<Rightarrow> bool"
  ctxErr :: error

definition WaitForRetry :: "RetryPolicy \<Rightarrow> Context \<Rightarrow> Runtime \<Rightarrow> int \<Rightarrow> bool" where
  "WaitForRetry p ctx rt attempt =
     (let delay = DelayForAttempt rt p attempt (rand_Float64 rt attempt)
      in if delay \<le> 0 then True
         else if doneDuringWait ctx attempt then False else True)"

text \<open>
  \<open>RetryResult\<close> without its \<open>Duration\<close>, which is wall-clock time. The operation is a
  closure with effects: a function from the state it acts on to its error (\<open>None\<close> is
  \<open>nil\<close>) and the new state.
\<close>

record RetryResult =
  Attempts :: int
  LastError :: "error option"

definition emptyResult :: RetryResult where
  "emptyResult = \<lparr>Attempts = 0, LastError = None\<rparr>"

function Execute_loop ::
  "RetryPolicy \<Rightarrow> Context \<Rightarrow> Runtime \<Rightarrow> ('s \<Rightarrow> error option \<times> 's) \<Rightarrow>
   int \<Rightarrow> RetryResult \<Rightarrow> 's \<Rightarrow> RetryResult \<times> 's" where
  "Execute_loop p ctx rt operation attempt result s =
     (if attempt \<le> maxAttempts p then
        (let result = result\<lparr>Attempts := attempt\<rparr>;
             (err, s) = operation s
         in if err = None then (result, s)
            else
              let result = result\<lparr>LastError := err\<rparr>
              in if \<not> ShouldRetry p err attempt then (result, s)
                 else if attempt < maxAttempts p then
                   (if \<not> WaitForRetry p ctx rt attempt
                    then (result\<lparr>LastError := Some (ctxErr ctx)\<rparr>, s)
                    else Execute_loop p ctx rt operation (attempt + 1) result s)
                 else Execute_loop p ctx rt operation (attempt + 1) result s)
      else (result, s))"
  by pat_completeness auto
termination
  by (relation "measure (\<lambda>(p, ctx, rt, operation, attempt, result, s).
                   nat (maxAttempts p + 1 - attempt))") auto

declare Execute_loop.simps [simp del]

definition Execute ::
  "RetryPolicy \<Rightarrow> Context \<Rightarrow> Runtime \<Rightarrow> ('s \<Rightarrow> error option \<times> 's) \<Rightarrow> 's \<Rightarrow>
   RetryResult \<times> 's" where
  "Execute p ctx rt operation s = Execute_loop p ctx rt operation 1 emptyResult s"

section \<open>Token-bucket rate limiter (internal/domain/shopee, ratelimit)\<close>

text \<open>
  The bucket's balance, capacity and rate are kept as reals, and a \<open>time.Time\<close> is a
  real number of seconds, so that \<open>now.Sub(lastRefill).Seconds()\<close> is a difference. The
  clock reading \<open>time.Now()\<close> is an argument of every function that reads it. The wait
  that \<open>take\<close> hands back is computed by the runtime's \<open>float64\<close> operations and
  conversion.
\<close>

record tokenBucket =
  tokens :: real
  maxTokens :: real
  refillRate :: real
  lastRefill :: real

definition newTokenBucket :: "int \<Rightarrow> int \<Rightarrow> real \<Rightarrow> tokenBucket" where
  "newTokenBucket rps burst now =
     \<lparr>tokens = real_of_int burst, maxTokens = real_of_int burst,
      refillRate = real_of_int rps, lastRefill = now\<rparr>"

text \<open>\<open>take\<close> returns the wait and the updated bucket.\<close>

definition tokenBucket_take :: "Runtime \<Rightarrow> tokenBucket \<Rightarrow> real \<Rightarrow> int \<times> tokenBucket" where
  "tokenBucket_take rt tb now =
     (let elapsed = now - lastRefill tb;
          tb = tb\<lparr>tokens := tokens tb + elapsed * refillRate tb\<rparr>;
          tb = (if tokens tb > maxTokens tb then tb\<lparr>tokens := maxTokens tb\<rparr> else tb);
          tb = tb\<lparr>lastRefill := now\<rparr>
      in if tokens tb \<ge> 1 then (0, tb\<lparr>tokens := tokens tb - 1\<rparr>)
         else
           let deficit = f64_sub rt (Finite 1) (Finite (tokens tb));
               waitSeconds = f64_div rt deficit (Finite (refillRate tb))
           in (Duration_of_float64 rt (f64_mul rt waitSeconds (float64_of_int rt Second)), tb))"

text \<open>
  A run of \<open>take()\<close> calls, each after the given time has elapsed since the previous
  one (the first since the bucket was made): the list of bucket states after each call.
\<close>

fun take_run :: "Runtime \<Rightarrow> tokenBucket \<Rightarrow> real list \<Rightarrow> tokenBucket list" where
  "take_run rt tb [] = []"
| "take_run rt tb (elapsed # rest) =
     (let tb' = snd (tokenBucket_take rt tb (lastRefill tb + elapsed))
      in tb' # take_run rt tb' rest)"

record PathLimit =
  RPS :: int
  Burst :: int

text \<open>
  \<open>PathLimits\<close> is a Go map. Its entries are kept as an association list with distinct
  keys; a \<open>range\<close> over the map visits them in an order the language leaves open and
  that may change from one loop to the next, so each function that ranges over the map
  takes the entries in the order of that visit.
\<close>

record RateLimitConfig =
  DefaultRPS :: int
  DefaultBurst :: int
  PathLimits :: "(string \<times> PathLimit) list"

definition visit_of :: "RateLimitConfig \<Rightarrow> (string \<times> PathLimit) list \<Rightarrow> bool" where
  "visit_of config visit =
     (distinct (map fst visit) \<and> set visit = set (PathLimits config))"

definition DefaultRateLimitConfig :: RateLimitConfig where
  "DefaultRateLimitConfig =
     \<lparr>DefaultRPS = 10, DefaultBurst = 20,
      PathLimits =
        [(''/api/v2/product/'', \<lparr>RPS = 10, Burst = 20\<rparr>),
         (''/api/v2/order/'', \<lparr>RPS = 10, Burst = 20\<rparr>),
         (''/api/v2/shop/'', \<lparr>RPS = 10, Burst = 15\<rparr>),
         (''/api/v2/auth/'', \<lparr>RPS = 5, Burst = 10\<rparr>),
         (''/api/v2/media_space/'', \<lparr>RPS = 5, Burst = 10\<rparr>),
         (''/api/v2/logistics/'', \<lparr>RPS = 10, Burst = 15\<rparr>)]\<rparr>"

text \<open>The loop test \<open>len(path) >= len(prefix) && path[:len(prefix)] == prefix\<close>.\<close>

definition hasPrefix :: "string \<Rightarrow> string \<Rightarrow> bool" where
  "hasPrefix path prefix =
     (length path \<ge> length prefix \<and> take (length prefix) path = prefix)"

fun findBucketKey :: "(string \<times> PathLimit) list \<Rightarrow> string \<Rightarrow> string" where
  "findBucketKey [] path = ''default''"
| "findBucketKey ((prefix, limit) # visit) path =
     (if hasPrefix path prefix then prefix else findBucketKey visit path)"

fun getLimitForPath ::
  "RateLimitConfig \<Rightarrow> (string \<times> PathLimit) list \<Rightarrow> string \<Rightarrow> int \<times> int" where
  "getLimitForPath config [] path = (DefaultRPS config, DefaultBurst config)"
| "getLimitForPath config ((prefix, limit) # visit) path =
     (if hasPrefix path prefix then (RPS limit, Burst limit)
      else getLimitForPath config visit path)"

record RateLimiter =
  buckets :: "string \<rightharpoonup> tokenBucket"
  config :: RateLimitConfig

definition NewRateLimiter :: "RateLimitConfig \<Rightarrow> RateLimiter" where
  "NewRateLimiter cfg = \<lparr>buckets = Map.empty, config = cfg\<rparr>"

text \<open>
  \<open>getBucket\<close> returns a pointer into the map; here it returns the key of the bucket
  and the limiter, in which the bucket now exists. The two visits are those of the
  loops in \<open>findBucketKey\<close> and in \<open>getLimitForPath\<close>.
\<close>

definition getBucket ::
  "RateLimiter \<Rightarrow> (string \<times> PathLimit) list \<Rightarrow> (string \<times> PathLimit) list \<Rightarrow> real \<Rightarrow>
   string \<Rightarrow> string \<times> RateLimiter" where
  "getBucket rl visit1 visit2 now path =
     (let bucketKey = findBucketKey visit1 path
      in case buckets rl bucketKey of
           Some bucket \<Rightarrow> (bucketKey, rl)
         | None \<Rightarrow>
             let (rps, burst) = getLimitForPath (config rl) visit2 path;
                 bucket = newTokenBucket rps burst now
             in (bucketKey, rl\<lparr>buckets := (buckets rl)(bucketKey \<mapsto> bucket)\<rparr>))"

text \<open>
  \<open>TryAcquire\<close>: the bucket is created at clock reading \<open>now1\<close> if it is new, and
  \<open>take\<close> reads the clock at \<open>now2\<close>.
\<close>

definition TryAcquire ::
  "Runtime \<Rightarrow> RateLimiter \<Rightarrow> (string \<times> PathLimit) list \<Rightarrow> (string \<times> PathLimit) list \<Rightarrow> real \<Rightarrow> real \<Rightarrow>
   string \<Rightarrow> bool \<times> RateLimiter" where
  "TryAcquire rt rl visit1 visit2 now1 now2 path =
     (let (key, rl) = getBucket rl visit1 visit2 now1 path
      in case buckets rl key of
           None \<Rightarrow> (False, rl)
         | Some bucket \<Rightarrow>
             let (wait, bucket) = tokenBucket_take rt bucket now2
             in (wait = 0, rl\<lparr>buckets := (buckets rl)(key \<mapsto> bucket)\<rparr>))"

text \<open>
  \<open>Wait\<close>: as \<open>TryAcquire\<close>, then the \<open>select\<close> between the context and the timer
  when the wait is not zero; \<open>done\<close> tells whether the context wins it.
\<close>

definition Wait ::
  "Runtime \<Rightarrow> RateLimiter \<Rightarrow> (string \<times> PathLimit) list \<Rightarrow> (string \<times> PathLimit) list \<Rightarrow> real \<Rightarrow> real \<Rightarrow>
   bool \<Rightarrow> error \<Rightarrow> string \<Rightarrow> error option \<times> RateLimiter" where
  "Wait rt rl visit1 visit2 now1 now2 done err path =
     (let (key, rl) = getBucket rl visit1 visit2 now1 path
      in case buckets rl key of
           None \<Rightarrow> (None, rl)
         | Some bucket \<Rightarrow>
             let (waitTime, bucket) = tokenBucket_take rt bucket now2;
                 rl = rl\<lparr>buckets := (buckets rl)(key \<mapsto> bucket)\<rparr>
             in if waitTime = 0 then (None, rl)
                else if done then (Some err, rl) else (None, rl))"

text \<open>
  The claim about bucket selection, in the specification's words: the registered prefix
  that is the longest among those the path starts with, and \<open>default\<close> when there is
  none.
\<close>

definition longestRegisteredPrefix :: "RateLimitConfig \<Rightarrow> string \<Rightarrow> string" where
  "longestRegisteredPrefix cfg path =
     (let matching = filter (hasPrefix path) (map fst (PathLimits cfg))
      in if matching = [] then ''default''
         else foldl (\<lambda>best prefix. if length prefix > length best then prefix else best)
                    (hd matching) (tl matching))"

section \<open>Request signing and webhook verification (internal/domain/shopee, signature)\<close>

text \<open>
  A Go \<open>string\<close> and a \<open>[]byte\<close> are both byte sequences, a \<open>char list\<close> here.
  HMAC-SHA256 comes from the standard library: it is a parameter \<open>H key message\<close> of the
  functions that sign. \<open>hex.EncodeToString\<close> and \<open>hmac.Equal\<close> (the constant-time
  comparison of \<open>crypto/subtle\<close>: unequal lengths fail, otherwise the XOR of each pair
  of bytes is OR-ed into an accumulator that must end as zero) are written out.
\<close>

record Signature =
  partnerKey :: string

definition NewSignature :: "string \<Rightarrow> Signature" where
  "NewSignature key = \<lparr>partnerKey = key\<rparr>"

definition hexdigit :: "nat \<Rightarrow> char" where
  "hexdigit d = ''0123456789abcdef'' ! d"

definition hex_EncodeToString :: "string \<Rightarrow> string" where
  "hex_EncodeToString bs =
     concat (map (\<lambda>b. [hexdigit (of_char b div 16), hexdigit (of_char b mod 16)]) bs)"

definition hmac_Equal :: "string \<Rightarrow> string \<Rightarrow> bool" where
  "hmac_Equal mac1 mac2 =
     (if length mac1 \<noteq> length mac2 then False
      else foldl (\<lambda>v (x, y). v OR ((of_char x :: nat) XOR of_char y)) 0 (zip mac1 mac2) = 0)"

definition sign :: "(string \<Rightarrow> string \<Rightarrow> string) \<Rightarrow> Signature \<Rightarrow> string \<Rightarrow> string" where
  "sign H s baseString = hex_EncodeToString (H (partnerKey s) baseString)"

text \<open>\<open>%d\<close> of \<open>fmt.Sprintf\<close>: the decimal digits, with a minus sign below zero.\<close>

fun digits :: "nat \<Rightarrow> string" where
  "digits n =
     (if n < 10 then [''0123456789'' ! n]
      else digits (n div 10) @ [''0123456789'' ! (n mod 10)])"

declare digits.simps [simp del]

definition itoa :: "int \<Rightarrow> string" where
  "itoa i = (if i < 0 then CHR ''-'' # digits (nat (- i)) else digits (nat i))"

definition GeneratePublic ::
  "(string \<Rightarrow> string \<Rightarrow> string) \<Rightarrow> Signature \<Rightarrow> int \<Rightarrow> string \<Rightarrow> int \<Rightarrow> string" where
  "GeneratePublic H s partnerID path timestamp =
     sign H s (itoa partnerID @ path @ itoa timestamp)"

definition GenerateAuthenticated ::
  "(string \<Rightarrow> string \<Rightarrow> string) \<Rightarrow> Signature \<Rightarrow> int \<Rightarrow> string \<Rightarrow> int \<Rightarrow> string \<Rightarrow> int \<Rightarrow> string" where
  "GenerateAuthenticated H s partnerID path timestamp accessToken shopID =
     sign H s (itoa partnerID @ path @ itoa timestamp @ accessToken @ itoa shopID)"

definition VerifyWebhook ::
  "(string \<Rightarrow> string \<Rightarrow> string) \<Rightarrow> Signature \<Rightarrow> string \<Rightarrow> string \<Rightarrow> string \<Rightarrow> bool" where
  "VerifyWebhook H s baseURL body providedSignature =
     (let baseString = baseURL @ ''|'' @ body;
          expectedSignature = sign H s baseString
      in hmac_Equal expectedSignature providedSignature)"

section \<open>The API client (internal/providers/shopee, client)\<close>

text \<open>
  The client's fields, without the logger, the HTTP client and the stored copy of the
  partner key, which are the environment or are never read. The token refresher is an
  interface value, \<open>None\<close> when it is \<open>nil\<close>; its answer may depend on how many times
  it has been called before. \<open>tokenExpiry\<close> is in seconds.
\<close>

record TokenRefreshResult =
  AccessToken :: string
  RefreshToken :: string
  ExpiresIn :: int

type_synonym TokenRefresher = "nat \<Rightarrow> string \<Rightarrow> int \<Rightarrow> error + TokenRefreshResult"

record Client =
  partnerID :: int
  baseURL :: string
  retryPolicy :: RetryPolicy
  signature :: Signature
  accessToken :: string
  refreshToken :: string
  shopID :: int
  tokenExpiry :: int
  tokenRefresher :: "TokenRefresher option"

datatype ReqBody = Marshals string | MarshalFails string

record Request =
  Method :: string
  Path :: string
  Query :: "(string \<times> string) list"
  Body :: "ReqBody option"
  NeedAuth :: bool

text \<open>
  What the network and the JSON decoder answer. \<open>envelope\<close> is the result of decoding
  the body into the base response (\<open>None\<close> when decoding fails), \<open>resultErr\<close> the
  error of decoding it into the caller's \<open>result\<close>.
\<close>

record baseResp =
  respError :: string
  respMessage :: string
  respRequestID :: string

record HTTPResponse =
  respStatus :: int
  readErr :: "string option"
  envelope :: "baseResp option"
  resultErr :: "string option"

datatype HTTPOutcome = TransportFailure string | Replied HTTPResponse

text \<open>
  The environment of a call: the clock, HMAC-SHA256, the error (if any) of
  \<open>http.NewRequestWithContext\<close> for a method and URL, and the outcome of the n-th
  round trip of the HTTP client for a method, URL and body.
\<close>

record Env =
  unixNow :: "nat \<Rightarrow> int"
  hmacSHA256 :: "string \<Rightarrow> string \<Rightarrow> string"
  newRequestErr :: "string \<Rightarrow> string \<Rightarrow> string option"
  roundTrip :: "nat \<Rightarrow> string \<Rightarrow> string \<Rightarrow> string option \<Rightarrow> HTTPOutcome"

text \<open>
  The effects of the client on the world outside it are recorded in a trace, in the
  order they happen. A wait on the rate limiter would be such an effect.
\<close>

datatype event =
  HTTPCall string string
  | RefreshTokenCall string int
  | RateLimiterWait string

fun is_HTTPCall :: "event \<Rightarrow> bool" where
  "is_HTTPCall (HTTPCall m u) = True"
| "is_HTTPCall _ = False"

fun is_RefreshTokenCall :: "event \<Rightarrow> bool" where
  "is_RefreshTokenCall (RefreshTokenCall t i) = True"
| "is_RefreshTokenCall _ = False"

fun is_RateLimiterWait :: "event \<Rightarrow> bool" where
  "is_RateLimiterWait (RateLimiterWait p) = True"
| "is_RateLimiterWait _ = False"

record World =
  client :: Client
  trace :: "event list"

definition httpCalls :: "World \<Rightarrow> nat" where
  "httpCalls w = length (filter is_HTTPCall (trace w))"

definition refreshCalls :: "World \<Rightarrow> nat" where
  "refreshCalls w = length (filter is_RefreshTokenCall (trace w))"

definition emit :: "event \<Rightarrow> World \<Rightarrow> World" where
  "emit e w = w\<lparr>trace := trace w @ [e]\<rparr>"

text \<open>The text \<open>Error()\<close> returns.\<close>

fun Error_text :: "error \<Rightarrow> string" where
  "Error_text (APIErr e) =
     (if RequestID e \<noteq> []
      then ''shopee ['' @ Code e @ '']: '' @ Message e @ '' (request_id: '' @ RequestID e @ '')''
      else ''shopee ['' @ Code e @ '']: '' @ Message e)"
| "Error_text (OtherErr msg) = msg"

fun join :: "string list \<Rightarrow> string \<Rightarrow> string" where
  "join [] sep = []"
| "join [x] sep = x"
| "join (x # y # ys) sep = x @ sep @ join (y # ys) sep"

definition buildURL :: "Env \<Rightarrow> Client \<Rightarrow> Request \<Rightarrow> int \<Rightarrow> string" where
  "buildURL env c req timestamp =
     (let url = baseURL c @ Path req;
          queryParams = [''partner_id='' @ itoa (partnerID c), ''timestamp='' @ itoa timestamp];
          (sign, queryParams) =
            (if NeedAuth req
             then (GenerateAuthenticated (hmacSHA256 env) (signature c) (partnerID c) (Path req)
                     timestamp (accessToken c) (shopID c),
                   queryParams @ [''access_token='' @ accessToken c, ''shop_id='' @ itoa (shopID c)])
             else (GeneratePublic (hmacSHA256 env) (signature c) (partnerID c) (Path req) timestamp,
                   queryParams));
          queryParams = queryParams @ [''sign='' @ sign];
          queryParams = queryParams @ map (\<lambda>(k, v). k @ ''='' @ v) (Query req)
      in url @ ''?'' @ join (sort queryParams) ''&'')"

text \<open>
  \<open>doRequest\<close>, one attempt. \<open>wantResult\<close> tells whether the caller's \<open>result\<close> is
  not \<open>nil\<close>; the decoded result itself is not kept.
\<close>

definition doRequest :: "Env \<Rightarrow> Request \<Rightarrow> bool \<Rightarrow> World \<Rightarrow> error option \<times> World" where
  "doRequest env req wantResult w =
     (let timestamp = unixNow env (length (trace w));
          url = buildURL env (client w) req timestamp
      in case Body req of
           Some (MarshalFails e) \<Rightarrow>
             (Some (OtherErr (''failed to marshal request body: '' @ e)), w)
         | body \<Rightarrow>
           (case newRequestErr env (Method req) url of
              Some e \<Rightarrow> (Some (OtherErr (''failed to create request: '' @ e)), w)
            | None \<Rightarrow>
              let bodyBytes = (case body of Some (Marshals b) \<Rightarrow> Some b | _ \<Rightarrow> None);
                  w1 = emit (HTTPCall (Method req) url) w
              in (case roundTrip env (httpCalls w) (Method req) url bodyBytes of
                   TransportFailure e \<Rightarrow> (Some (OtherErr (''request failed: '' @ e)), w1)
                 | Replied resp \<Rightarrow>
                   (case readErr resp of
                      Some e \<Rightarrow> (Some (OtherErr (''failed to read response: '' @ e)), w1)
                    | None \<Rightarrow>
                      if (case envelope resp of
                            None \<Rightarrow> False
                          | Some b \<Rightarrow> respError b \<noteq> [] \<and> respError b \<noteq> ''success'')
                      then (Some (APIErr (NewAPIErrorWithRequestID
                                   (respError (the (envelope resp)))
                                   (respMessage (the (envelope resp)))
                                   (respStatus resp)
                                   (respRequestID (the (envelope resp))))), w1)
                      else if respStatus resp \<ge> 400
                      then (Some (APIErr (NewAPIError CodeServerError
                                   (''HTTP error: '' @ itoa (respStatus resp))
                                   (respStatus resp))), w1)
                      else if wantResult \<and> resultErr resp \<noteq> None
                      then (Some (OtherErr (''failed to parse response: '' @ the (resultErr resp))), w1)
                      else (None, w1)))))"

definition tryRefreshToken :: "Env \<Rightarrow> World \<Rightarrow> error option \<times> World" where
  "tryRefreshToken env w =
     (case tokenRefresher (client w) of
        None \<Rightarrow> (Some (OtherErr ''no token refresher configured''), w)
      | Some refresher \<Rightarrow>
          if refreshToken (client w) = []
          then (Some (OtherErr ''no refresh token available''), w)
          else
            let w1 = emit (RefreshTokenCall (refreshToken (client w)) (shopID (client w))) w
            in (case refresher (refreshCalls w) (refreshToken (client w)) (shopID (client w)) of
                  Inl err \<Rightarrow> (Some err, w1)
                | Inr result \<Rightarrow>
                    (None, w1\<lparr>client := (client w1)
                       \<lparr>accessToken := AccessToken result,
                        refreshToken := RefreshToken result,
                        tokenExpiry := unixNow env (length (trace w1)) + ExpiresIn result\<rparr>\<rparr>)))"

fun isTokenExpiredError :: "error \<Rightarrow> bool" where
  "isTokenExpiredError (APIErr apiErr) = (Code apiErr = CodeAuthError)"
| "isTokenExpiredError (OtherErr msg) = False"

text \<open>The closure that \<open>Do\<close> hands to the executor: one attempt.\<close>

definition Do_attempt :: "Env \<Rightarrow> Request \<Rightarrow> bool \<Rightarrow> World \<Rightarrow> error option \<times> World" where
  "Do_attempt env req wantResult w =
     (let (err, w) = doRequest env req wantResult w
      in case err of
           None \<Rightarrow> (err, w)
         | Some e \<Rightarrow>
             if Error_text ErrTokenExpired = Error_text e \<or> isTokenExpiredError e then
               (let (refreshErr, w) = tryRefreshToken env w
                in if refreshErr \<noteq> None then (err, w)
                   else (Some (APIErr (NewAPIError CodeAuthError ''token refreshed, retrying''
                                         StatusUnauthorized)), w))
             else (err, w))"

definition Do ::
  "Env \<Rightarrow> Context \<Rightarrow> Runtime \<Rightarrow> Request \<Rightarrow> bool \<Rightarrow> World \<Rightarrow> error option \<times> World" where
  "Do env ctx rt req wantResult w =
     (let (retryResult, w) =
            Execute (retryPolicy (client w)) ctx rt (Do_attempt env req wantResult) w
      in if LastError retryResult \<noteq> None then (LastError retryResult, w)
         else (None, w))"

section \<open>Concrete inputs\<close>

text \<open>
  A client, a request and an environment on which the functions above are run: the
  network answers the n-th round trip with \<open>reply n\<close>, every request can be built, and
  the stand-in for HMAC-SHA256 returns a fixed string.
\<close>

definition exampleEnv :: "(nat \<Rightarrow> HTTPOutcome) \<Rightarrow> Env" where
  "exampleEnv reply =
     \<lparr>unixNow = (\<lambda>n. 1700000000), hmacSHA256 = (\<lambda>key msg. ''mac''),
      newRequestErr = (\<lambda>m u. None), roundTrip = (\<lambda>n m u b. reply n)\<rparr>"

definition exampleClient :: "RetryPolicy \<Rightarrow> TokenRefresher option \<Rightarrow> Client" where
  "exampleClient p rf =
     \<lparr>partnerID = 1001, baseURL = ''https://partner.shopeemobile.com'', retryPolicy = p,
      signature = NewSignature ''key'', accessToken = ''a1'', refreshToken = ''r1'',
      shopID = 77, tokenExpiry = 0, tokenRefresher = rf\<rparr>"

definition exampleWorld :: "RetryPolicy \<Rightarrow> TokenRefresher option \<Rightarrow> World" where
  "exampleWorld p rf = \<lparr>client = exampleClient p rf, trace = []\<rparr>"

definition exampleRequest :: Request where
  "exampleRequest =
     \<lparr>Method = ''GET'', Path = ''/api/v2/shop/get_shop_info'', Query = [], Body = None,
      NeedAuth = True\<rparr>"

definition replyWith :: "int \<Rightarrow> string \<Rightarrow> string \<Rightarrow> HTTPOutcome" where
  "replyWith st code msg =
     Replied \<lparr>respStatus = st, readErr = None,
              envelope = Some \<lparr>respError = code, respMessage = msg, respRequestID = []\<rparr>,
              resultErr = None\<rparr>"

definition liveContext :: Context where
  "liveContext = \<lparr>doneDuringWait = (\<lambda>k. False), ctxErr = OtherErr ''context canceled''\<rparr>"

definition failingRefresher :: TokenRefresher where
  "failingRefresher n t i = Inl (OtherErr ''refresh rejected'')"

definition workingRefresher :: TokenRefresher where
  "workingRefresher n t i =
     Inr \<lparr>AccessToken = ''a2'', RefreshToken = ''r2'', ExpiresIn = 14400\<rparr>"

text \<open>The error that \<open>doRequest\<close> builds from an \<open>error_auth\<close> reply without request id.\<close>

definition authExpired :: "int \<Rightarrow> APIError" where
  "authExpired st = NewAPIErrorWithRequestID CodeAuthError ''token expired'' st []"

text \<open>
  A runtime whose arithmetic on finite numbers is exact, with NaN for every other
  operand, whose \<open>math.Pow\<close> is the power at a whole exponent, and whose conversions
  without an \<open>int64\<close> value give \<open>-2^63\<close>, as on amd64. Where operands and exact
  result are all \<open>float64\<close> numbers, IEEE arithmetic returns the exact result as well;
  wherever a result below depends on the arithmetic, the inputs are of this kind.
\<close>

fun exact2 :: "(real \<Rightarrow> real \<Rightarrow> real) \<Rightarrow> float64 \<Rightarrow> float64 \<Rightarrow> float64" where
  "exact2 f (Finite x) (Finite y) = Finite (f x y)"
| "exact2 f x y = NaN"

definition exactRuntime :: Runtime where
  "exactRuntime =
     \<lparr>f64_mul = exact2 (\<lambda>x y. x * y), f64_add = exact2 (\<lambda>x y. x + y),
      f64_sub = exact2 (\<lambda>x y. x - y), f64_div = exact2 (\<lambda>x y. x / y),
      math_Pow = exact2 (\<lambda>x y. x ^ nat \<lfloor>y\<rfloor>),
      nearestDouble = real_of_int,
      indefinite = (\<lambda>v. - 9223372036854775808),
      rand_Float64 = (\<lambda>attempt. Finite (1 / 2))\<rparr>"

text \<open>An operation that fails with the same error every time and counts its calls.\<close>

definition alwaysFails :: "error \<Rightarrow> nat \<Rightarrow> error option \<times> nat" where
  "alwaysFails e n = (Some e, Suc n)"

definition nestedLimits :: RateLimitConfig where
  "nestedLimits =
     \<lparr>DefaultRPS = 10, DefaultBurst = 20,
      PathLimits = [(''/api/'', \<lparr>RPS = 5, Burst = 10\<rparr>),
                    (''/api/v2/'', \<lparr>RPS = 10, Burst = 20\<rparr>)]\<rparr>"

section \<open>Error classification\<close>

lemmas ErrorCode_defs =
  CodeAuthError_def CodeInvalidSign_def CodeInvalidTimestamp_def CodePermissionDenied_def
  CodeInvalidParam_def CodeExceedLimit_def CodeServerError_def CodeNotFound_def
  CodeProductBanned_def CodeOrderCancelled_def

lemmas example_defs =
  exampleEnv_def exampleClient_def exampleWorld_def exampleRequest_def replyWith_def
  liveContext_def failingRefresher_def workingRefresher_def

lemmas eval_defs =
  Do_def Execute_def Execute_loop.simps Do_attempt_def doRequest_def emit_def httpCalls_def
  emptyResult_def example_defs Let_def DefaultRetryPolicy_def tryRefreshToken_def
  refreshCalls_def NewAPIErrorWithRequestID_def NewAPIError_def ErrTokenExpired_def
  ShouldRetry_def APIError_IsRetryable_def ErrorCode_IsRetryable_def ErrorCode_defs
  StatusTooManyRequests_def StatusServiceUnavailable_def StatusUnauthorized_def
  WaitForRetry_def authExpired_def

text \<open>
  Claim C5. An \<open>APIError\<close> is retryable exactly when its code is
  \<open>error_exceed_limit\<close> or \<open>error_server\<close>, or its HTTP status is 429, 503 or at
  least 500; the two codes are exactly those of the categories \<open>rate_limit\<close> and
  \<open>server\<close>.
\<close>

theorem APIError_IsRetryable_iff:
  "APIError_IsRetryable e =
     (Code e = ''error_exceed_limit'' \<or> Code e = ''error_server'' \<or>
      StatusCode e = 429 \<or> StatusCode e = 503 \<or> StatusCode e \<ge> 500)
   \<and> ErrorCode_IsRetryable (Code e) =
     (Category e = CategoryRateLimit \<or> Category e = CategoryServer)"
  by (simp add: APIError_IsRetryable_def ErrorCode_IsRetryable_def Category_def ErrorCode_defs
      StatusTooManyRequests_def StatusServiceUnavailable_def)

theorem APIError_IsRetryable_iff_witness:
  "APIError_IsRetryable (NewAPIError CodeInvalidParam ''busy'' 503)
   \<and> \<not> APIError_IsRetryable (NewAPIError CodeInvalidParam ''bad shop'' 400)
   \<and> APIError_IsRetryable (NewAPIError CodeExceedLimit ''slow down'' 200)"
  using APIError_IsRetryable_iff [of "NewAPIError CodeInvalidParam ''busy'' 503"]
    APIError_IsRetryable_iff [of "NewAPIError CodeInvalidParam ''bad shop'' 400"]
    APIError_IsRetryable_iff [of "NewAPIError CodeExceedLimit ''slow down'' 200"]
  by (simp add: NewAPIError_def ErrorCode_defs)

section \<open>The executor\<close>

text \<open>
  Claim C10. With \<open>maxAttempts \<le> 0\<close> the executor never calls the operation (the state
  it acts on comes back untouched, whatever the operation is) and reports zero attempts
  and no error; \<open>Client.Do\<close> under such a policy returns \<open>nil\<close> without doing anything.
\<close>

theorem Execute_no_attempts:
  "maxAttempts p \<le> 0 \<Longrightarrow>
     Execute p ctx rt operation s = (\<lparr>Attempts = 0, LastError = None\<rparr>, s)
     \<and> Do env ctx rt req wantResult (w\<lparr>client := (client w)\<lparr>retryPolicy := p\<rparr>\<rparr>)
         = (None, w\<lparr>client := (client w)\<lparr>retryPolicy := p\<rparr>\<rparr>)"
  by (simp add: Do_def Execute_def Execute_loop.simps emptyResult_def)

theorem Execute_no_attempts_witness:
  "maxAttempts (WithMaxAttempts DefaultRetryPolicy 0) \<le> 0
   \<and> Execute (WithMaxAttempts DefaultRetryPolicy 0) liveContext exactRuntime
        (alwaysFails (OtherErr ''boom'')) 0 = (\<lparr>Attempts = 0, LastError = None\<rparr>, 0)
   \<and> Do (exampleEnv (\<lambda>n. replyWith 500 ''error_server'' ''down'')) liveContext exactRuntime
        exampleRequest True (exampleWorld (WithMaxAttempts DefaultRetryPolicy 0) None)
      = (None, exampleWorld (WithMaxAttempts DefaultRetryPolicy 0) None)"
  using Execute_no_attempts [of "WithMaxAttempts DefaultRetryPolicy 0" liveContext exactRuntime
      "alwaysFails (OtherErr ''boom'')" 0 "exampleEnv (\<lambda>n. replyWith 500 ''error_server'' ''down'')"
      exampleRequest True "exampleWorld DefaultRetryPolicy None"]
  by (simp add: WithMaxAttempts_def DefaultRetryPolicy_def exampleWorld_def exampleClient_def)

lemma Execute_loop_always_fails:
  assumes fail: "\<And>s. fst (operation s) = Some (APIErr e)"
    and retry: "APIError_IsRetryable e"
    and live: "\<And>k. \<not> doneDuringWait ctx k"
  shows "1 \<le> a \<Longrightarrow> a \<le> maxAttempts p \<Longrightarrow> n = nat (maxAttempts p - a) \<Longrightarrow>
     Execute_loop p ctx rt operation a result s =
       (result\<lparr>Attempts := maxAttempts p, LastError := Some (APIErr e)\<rparr>,
        ((\<lambda>s. snd (operation s)) ^^ (Suc n)) s)"
proof (induction n arbitrary: a result s)
  case 0
  then have eq: "a = maxAttempts p" by simp
  obtain s1 where op: "operation s = (Some (APIErr e), s1)"
    using fail[of s] by (cases "operation s") simp
  show ?case using eq op
    by (subst Execute_loop.simps) (simp add: ShouldRetry_def Let_def)
next
  case (Suc n)
  then have lt: "a < maxAttempts p" by simp
  have w: "WaitForRetry p ctx rt a"
    using live by (simp add: WaitForRetry_def Let_def)
  obtain s1 where op: "operation s = (Some (APIErr e), s1)"
    using fail[of s] by (cases "operation s") simp
  have "Execute_loop p ctx rt operation (a + 1)
          (result\<lparr>Attempts := a, LastError := Some (APIErr e)\<rparr>) s1
        = (result\<lparr>Attempts := a, LastError := Some (APIErr e)\<rparr>
             \<lparr>Attempts := maxAttempts p, LastError := Some (APIErr e)\<rparr>,
           ((\<lambda>s. snd (operation s)) ^^ (Suc n)) s1)"
    using Suc.prems lt by (intro Suc.IH) auto
  moreover have "((\<lambda>s. snd (operation s)) ^^ Suc (Suc n)) s
                 = ((\<lambda>s. snd (operation s)) ^^ Suc n) s1"
    using op by (simp only: funpow_Suc_right o_apply snd_conv)
  ultimately show ?case using lt w op retry
    by (subst Execute_loop.simps) (simp add: ShouldRetry_def Let_def del: funpow.simps)
qed

text \<open>
  Claim C4. With \<open>maxAttempts = N \<ge> 1\<close>, an operation that always fails with one
  retryable \<open>APIError\<close> and a context that is never cancelled, \<open>Execute\<close> calls the
  operation exactly \<open>N\<close> times (the final state is the operation's effect applied \<open>N\<close>
  times) and returns \<open>Attempts = N\<close> with that error as \<open>LastError\<close>.
\<close>

theorem Execute_retry_bound:
  assumes "1 \<le> N" and "maxAttempts p = N"
    and "\<forall>s. fst (operation s) = Some (APIErr e)"
    and "APIError_IsRetryable e"
    and "\<forall>k. \<not> doneDuringWait ctx k"
  shows "Execute p ctx rt operation s =
           (\<lparr>Attempts = N, LastError = Some (APIErr e)\<rparr>,
            ((\<lambda>s. snd (operation s)) ^^ nat N) s)"
proof -
  have run: "Execute_loop p ctx rt operation 1 emptyResult s =
          (emptyResult\<lparr>Attempts := maxAttempts p, LastError := Some (APIErr e)\<rparr>,
           ((\<lambda>s. snd (operation s)) ^^ (Suc (nat (maxAttempts p - 1)))) s)"
    using assms by (intro Execute_loop_always_fails) auto
  have count: "Suc (nat (maxAttempts p - 1)) = nat N"
    using assms(1,2) by simp
  show ?thesis
    unfolding Execute_def run count using assms(2) by (simp add: emptyResult_def)
qed

theorem Execute_retry_bound_witness:
  "(1::int) \<le> 3 \<and> maxAttempts DefaultRetryPolicy = 3
   \<and> (\<forall>s. fst (alwaysFails (APIErr (NewAPIError CodeServerError ''down'' 503)) s)
            = Some (APIErr (NewAPIError CodeServerError ''down'' 503)))
   \<and> APIError_IsRetryable (NewAPIError CodeServerError ''down'' 503)
   \<and> (\<forall>k. \<not> doneDuringWait liveContext k)
   \<and> Execute DefaultRetryPolicy liveContext exactRuntime
        (alwaysFails (APIErr (NewAPIError CodeServerError ''down'' 503))) 0
      = (\<lparr>Attempts = 3, LastError = Some (APIErr (NewAPIError CodeServerError ''down'' 503))\<rparr>, 3)"
proof -
  have h1: "(1::int) \<le> 3" by simp
  have h2: "maxAttempts DefaultRetryPolicy = 3" by (simp add: DefaultRetryPolicy_def)
  have h3: "\<forall>s. fst (alwaysFails (APIErr (NewAPIError CodeServerError ''down'' 503)) s)
            = Some (APIErr (NewAPIError CodeServerError ''down'' 503))"
    by (simp add: alwaysFails_def)
  have h4: "APIError_IsRetryable (NewAPIError CodeServerError ''down'' 503)"
    by (simp add: APIError_IsRetryable_def ErrorCode_IsRetryable_def NewAPIError_def)
  have h5: "\<forall>k. \<not> doneDuringWait liveContext k" by (simp add: liveContext_def)
  have "((\<lambda>s. snd (alwaysFails (APIErr (NewAPIError CodeServerError ''down'' 503)) s)) ^^ nat 3) 0
        = 3"
    by (simp add: alwaysFails_def eval_nat_numeral)
  then show ?thesis
    using h1 h2 h3 h4 h5 Execute_retry_bound [OF h1 h2 h3 h4 h5, of exactRuntime 0]
    by simp
qed

section \<open>Backoff delay\<close>

lemma Duration_of_float_le:
  "x \<le> real_of_int m \<Longrightarrow> Duration_of_float x \<le> m"
  by (auto simp: Duration_of_float_def floor_le_iff ceiling_le_iff le_floor_iff)

lemma Duration_of_float_of_int: "Duration_of_float (real_of_int m) = m"
  by (simp add: Duration_of_float_def)

lemma Duration_of_cap:
  assumes "\<bar>m\<bar> \<le> 9007199254740992"
  shows "Duration_of_float64 rt (float64_of_int rt m) = m"
proof -
  have "- 9223372036854775808 \<le> m" and "m \<le> 9223372036854775807"
    using assms by linarith+
  then show ?thesis
    using assms
    by (simp add: Duration_of_float64_def float64_of_int_def Duration_of_float_of_int)
qed

lemma Duration_below_cap:
  assumes "\<bar>m\<bar> \<le> 9007199254740992" and "has_int64 v"
    and "\<not> float64_gt v (float64_of_int rt m)"
  shows "Duration_of_float64 rt v \<le> m"
proof (cases v)
  case (Finite x)
  then have "x \<le> real_of_int m"
    using assms(1,3) by (simp add: float64_of_int_def)
  then show ?thesis
    using Finite assms(2) by (simp add: Duration_of_float64_def Duration_of_float_le)
qed (use assms(2) in simp_all)

text \<open>
  Claim C8, as amended. \<open>DelayForAttempt\<close> adds the jitter to the exponential delay
  first and applies the cap last: for an attempt number from 1 on, the result is the
  conversion of \<open>float64(maxDelay)\<close> when the jittered delay exceeds it, and of the
  jittered delay itself otherwise. So when \<open>maxDelay\<close> is at most \<open>2^53\<close> in absolute
  value (where \<open>float64(maxDelay)\<close> is exact), the result is \<open>maxDelay\<close> itself
  whenever the jittered delay exceeds the cap, and it never exceeds \<open>maxDelay\<close> as long
  as the jittered delay exceeds the cap or has an \<open>int64\<close> value, whatever the jitter
  draw and the rounding of the arithmetic.
\<close>

theorem DelayForAttempt_capped:
  "1 \<le> attempt \<Longrightarrow>
     DelayForAttempt rt p attempt r =
       Duration_of_float64 rt
         (if float64_gt (jitteredDelay rt p attempt r) (float64_of_int rt (maxDelay p))
          then float64_of_int rt (maxDelay p)
          else jitteredDelay rt p attempt r)
     \<and> (\<bar>maxDelay p\<bar> \<le> 9007199254740992
        \<and> float64_gt (jitteredDelay rt p attempt r) (float64_of_int rt (maxDelay p))
        \<longrightarrow> DelayForAttempt rt p attempt r = maxDelay p)
     \<and> (\<bar>maxDelay p\<bar> \<le> 9007199254740992
        \<and> (float64_gt (jitteredDelay rt p attempt r) (float64_of_int rt (maxDelay p))
           \<or> has_int64 (jitteredDelay rt p attempt r))
        \<longrightarrow> DelayForAttempt rt p attempt r \<le> maxDelay p)"
proof (intro conjI impI)
  assume a: "1 \<le> attempt"
  show eq: "DelayForAttempt rt p attempt r =
       Duration_of_float64 rt
         (if float64_gt (jitteredDelay rt p attempt r) (float64_of_int rt (maxDelay p))
          then float64_of_int rt (maxDelay p)
          else jitteredDelay rt p attempt r)"
    using a by (simp add: DelayForAttempt_def Let_def)
  {
    assume h: "\<bar>maxDelay p\<bar> \<le> 9007199254740992
        \<and> float64_gt (jitteredDelay rt p attempt r) (float64_of_int rt (maxDelay p))"
    then show "DelayForAttempt rt p attempt r = maxDelay p"
      using eq by (simp add: Duration_of_cap)
  }
  {
    assume h: "\<bar>maxDelay p\<bar> \<le> 9007199254740992
        \<and> (float64_gt (jitteredDelay rt p attempt r) (float64_of_int rt (maxDelay p))
           \<or> has_int64 (jitteredDelay rt p attempt r))"
    show "DelayForAttempt rt p attempt r \<le> maxDelay p"
    proof (cases "float64_gt (jitteredDelay rt p attempt r) (float64_of_int rt (maxDelay p))")
      case True
      then show ?thesis using h eq by (simp add: Duration_of_cap)
    next
      case False
      then have "Duration_of_float64 rt (jitteredDelay rt p attempt r) \<le> maxDelay p"
        using h by (intro Duration_below_cap) auto
      then show ?thesis using False eq by simp
    qed
  }
qed

theorem DelayForAttempt_capped_witness:
  "(1::int) \<le> 6
   \<and> \<bar>maxDelay (WithJitter DefaultRetryPolicy (Finite (1 / 2)))\<bar> \<le> 9007199254740992
   \<and> jitteredDelay exactRuntime (WithJitter DefaultRetryPolicy (Finite (1 / 2))) 6 (Finite (3 / 4))
       = Finite 40000000000
   \<and> float64_gt (jitteredDelay exactRuntime (WithJitter DefaultRetryPolicy (Finite (1 / 2))) 6
                    (Finite (3 / 4)))
        (float64_of_int exactRuntime (maxDelay (WithJitter DefaultRetryPolicy (Finite (1 / 2)))))
   \<and> DelayForAttempt exactRuntime (WithJitter DefaultRetryPolicy (Finite (1 / 2))) 6 (Finite (3 / 4))
       = maxDelay (WithJitter DefaultRetryPolicy (Finite (1 / 2)))
   \<and> DelayForAttempt exactRuntime (WithJitter DefaultRetryPolicy (Finite (1 / 2))) 6 (Finite (3 / 4))
       \<le> maxDelay (WithJitter DefaultRetryPolicy (Finite (1 / 2)))"
  using DelayForAttempt_capped [of 6 exactRuntime "WithJitter DefaultRetryPolicy (Finite (1 / 2))"
      "Finite (3 / 4)"]
  by (simp add: WithJitter_def DefaultRetryPolicy_def Second_def jitteredDelay_def
      exactRuntime_def float64_of_int_def Let_def)

text \<open>
  The claim as stated fails in its first half: the cap is not applied before the
  jitter. Under the default policy with the jitter factor set to 0.5, at attempt 6 and
  the draw 0.75, the exponential delay is 32 s and the jitter 8 s; capping before the
  jitter would return 37.5 s, above the cap of 30 s, while \<open>DelayForAttempt\<close> computes
  40 s and returns exactly the cap. Every number in this computation is a \<open>float64\<close>.
\<close>

theorem DelayForAttempt_counterexample:
  "DelayForAttempt_cap_first exactRuntime (WithJitter DefaultRetryPolicy (Finite (1 / 2))) 6
       (Finite (3 / 4)) = 37500000000
   \<and> DelayForAttempt exactRuntime (WithJitter DefaultRetryPolicy (Finite (1 / 2))) 6
       (Finite (3 / 4)) = 30000000000
   \<and> \<not> DelayForAttempt exactRuntime (WithJitter DefaultRetryPolicy (Finite (1 / 2))) 6
       (Finite (3 / 4)) > maxDelay (WithJitter DefaultRetryPolicy (Finite (1 / 2)))"
  by (simp add: DelayForAttempt_def DelayForAttempt_cap_first_def jitteredDelay_def
      WithJitter_def DefaultRetryPolicy_def Second_def exactRuntime_def float64_of_int_def
      Duration_of_float64_def Duration_of_float_def Let_def)

section \<open>The token bucket\<close>

lemma tokenBucket_take_bounds:
  assumes "0 \<le> tokens tb" and "tokens tb \<le> maxTokens tb"
    and "0 \<le> refillRate tb" and "lastRefill tb \<le> now"
  shows "0 \<le> tokens (snd (tokenBucket_take rt tb now)) \<and>
         tokens (snd (tokenBucket_take rt tb now)) \<le> maxTokens (snd (tokenBucket_take rt tb now)) \<and>
         maxTokens (snd (tokenBucket_take rt tb now)) = maxTokens tb \<and>
         refillRate (snd (tokenBucket_take rt tb now)) = refillRate tb"
proof -
  have "0 \<le> (now - lastRefill tb) * refillRate tb"
    using assms by simp
  then show ?thesis
    using assms by (auto simp: tokenBucket_take_def Let_def)
qed

lemma take_run_bounds:
  assumes "0 \<le> tokens tb" and "tokens tb \<le> maxTokens tb" and "0 \<le> refillRate tb"
    and "\<forall>el \<in> set els. 0 \<le> el"
  shows "\<forall>b \<in> set (take_run rt tb els). 0 \<le> tokens b \<and> tokens b \<le> maxTokens b"
  using assms
proof (induction els arbitrary: tb)
  case Nil
  then show ?case by simp
next
  case (Cons el els)
  let ?b = "snd (tokenBucket_take rt tb (lastRefill tb + el))"
  have later: "lastRefill tb \<le> lastRefill tb + el"
    using Cons.prems by simp
  note step = tokenBucket_take_bounds [OF Cons.prems(1,2,3) later, where rt = rt]
  have "\<forall>b \<in> set (take_run rt ?b els). 0 \<le> tokens b \<and> tokens b \<le> maxTokens b"
    using Cons.prems step by (intro Cons.IH) auto
  then show ?case
    using step by (simp add: Let_def)
qed

text \<open>
  Claim C6. For a bucket made with a burst that is not negative and a positive refill
  rate, and any run of \<open>take()\<close> calls separated by elapsed times that are not
  negative, \<open>0 \<le> tokens \<le> maxTokens\<close> holds after every call.
\<close>

theorem tokenBucket_bound:
  "0 \<le> burst \<Longrightarrow> 0 < rps \<Longrightarrow> \<forall>el \<in> set els. 0 \<le> el \<Longrightarrow>
   \<forall>b \<in> set (take_run rt (newTokenBucket rps burst t0) els).
      0 \<le> tokens b \<and> tokens b \<le> maxTokens b"
  by (rule take_run_bounds) (simp_all add: newTokenBucket_def)

theorem tokenBucket_bound_witness:
  "(0::int) \<le> 2 \<and> (0::int) < 10 \<and> list_all (\<lambda>el. 0 \<le> el) [0, 0, 0, 1 / 20 :: real]
   \<and> map tokens (take_run exactRuntime (newTokenBucket 10 2 0) [0, 0, 0, 1 / 20])
       = [1, 0, 0, 1 / 2]
   \<and> list_all (\<lambda>b. 0 \<le> tokens b \<and> tokens b \<le> maxTokens b)
        (take_run exactRuntime (newTokenBucket 10 2 0) [0, 0, 0, 1 / 20])"
  using tokenBucket_bound [of 2 10 "[0, 0, 0, 1 / 20]" exactRuntime 0]
  by (simp add: newTokenBucket_def tokenBucket_take_def Let_def)

section \<open>Bucket selection\<close>

lemma findBucketKey_hit:
  "\<exists>(prefix, limit) \<in> set visit. hasPrefix path prefix \<Longrightarrow>
   findBucketKey visit path \<in> fst ` set visit \<and> hasPrefix path (findBucketKey visit path)"
  by (induction visit path rule: findBucketKey.induct) auto

lemma findBucketKey_miss:
  "\<not> (\<exists>(prefix, limit) \<in> set visit. hasPrefix path prefix) \<Longrightarrow> findBucketKey visit path = ''default''"
  by (induction visit path rule: findBucketKey.induct) auto

lemma getLimitForPath_hit:
  "\<exists>(prefix, limit) \<in> set visit. hasPrefix path prefix \<Longrightarrow>
   \<exists>(prefix, limit) \<in> set visit. hasPrefix path prefix \<and> getLimitForPath cfg visit path = (RPS limit, Burst limit)"
  by (induction cfg visit path rule: getLimitForPath.induct) auto

lemma getLimitForPath_miss:
  "\<not> (\<exists>(prefix, limit) \<in> set visit. hasPrefix path prefix) \<Longrightarrow>
   getLimitForPath cfg visit path = (DefaultRPS cfg, DefaultBurst cfg)"
  by (induction cfg visit path rule: getLimitForPath.induct) auto

lemma foldl_longest_const:
  "\<forall>x \<in> set xs. x = b \<Longrightarrow>
   foldl (\<lambda>best prefix. if length prefix > length best then prefix else best) b xs = b"
  by (induction xs) auto

lemma longest_unique:
  assumes "p \<in> fst ` set (PathLimits cfg)" "hasPrefix path p"
    and "\<forall>q \<in> fst ` set (PathLimits cfg). hasPrefix path q \<longrightarrow> q = p"
  shows "longestRegisteredPrefix cfg path = p"
proof -
  let ?m = "filter (hasPrefix path) (map fst (PathLimits cfg))"
  have ne: "?m \<noteq> []" using assms(1,2) by (auto simp: filter_empty_conv)
  have all: "\<forall>x \<in> set ?m. x = p" using assms(3) by auto
  then have "hd ?m = p" using ne by (metis hd_in_set)
  moreover have "\<forall>x \<in> set (tl ?m). x = hd ?m" using all ne by (metis hd_in_set list.set_sel(2))
  ultimately show ?thesis using ne
    by (simp add: longestRegisteredPrefix_def Let_def foldl_longest_const del: filter.simps)
qed

lemma longest_none:
  "\<not> (\<exists>(prefix, limit) \<in> set (PathLimits cfg). hasPrefix path prefix) \<Longrightarrow>
   longestRegisteredPrefix cfg path = ''default''"
  by (auto simp: longestRegisteredPrefix_def Let_def filter_empty_conv)

lemma getLimitForPath_unique:
  assumes "distinct (map fst visit)"
    and "(key, limit) \<in> set visit" and "hasPrefix path key"
    and "\<forall>(q, l) \<in> set visit. hasPrefix path q \<longrightarrow> q = key"
  shows "getLimitForPath cfg visit path = (RPS limit, Burst limit)"
  using assms
proof (induction cfg visit path rule: getLimitForPath.induct)
  case (1 config path)
  then show ?case by simp
next
  case (2 config prefix limit' visit path)
  show ?case
  proof (cases "hasPrefix path prefix")
    case True
    then have "prefix = key" using "2.prems"(4) by auto
    then have "limit' = limit" using "2.prems"(1,2) by (auto simp: rev_image_eqI)
    then show ?thesis using True by simp
  next
    case False
    then have "(key, limit) \<in> set visit" using "2.prems"(2,3) by auto
    then show ?thesis using False 2 by auto
  qed
qed


text \<open>
  Claim C7, as amended. Whatever the orders in which the two loops visit the
  configuration map, \<open>getBucket\<close> selects the bucket stored under the key that
  \<open>findBucketKey\<close> returns: a registered prefix of the path when there is one (the first
  that the loop meets), and \<open>default\<close> when there is none. A bucket already stored
  under that key is used as it is; otherwise a bucket is made under the key with the
  limits that \<open>getLimitForPath\<close> returns: those of a registered prefix of the path when
  there is one, the default RPS and burst when there is none. When at most one
  registered prefix matches the path, the key is the longest registered prefix and the
  limits are the ones registered for it; when several match, the key need not be the
  longest, and the limits may be those of another matching prefix.
\<close>

theorem bucket_selection:
  assumes v1: "visit_of (config rl) visit1" and v2: "visit_of (config rl) visit2"
  shows "fst (getBucket rl visit1 visit2 now path) = findBucketKey visit1 path
     \<and> snd (getBucket rl visit1 visit2 now path) =
         (case buckets rl (findBucketKey visit1 path) of
            Some bucket \<Rightarrow> rl
          | None \<Rightarrow>
              rl\<lparr>buckets := (buckets rl)(findBucketKey visit1 path \<mapsto>
                   newTokenBucket (fst (getLimitForPath (config rl) visit2 path))
                                  (snd (getLimitForPath (config rl) visit2 path)) now)\<rparr>)
     \<and> (if \<exists>(prefix, limit) \<in> set (PathLimits (config rl)). hasPrefix path prefix
         then findBucketKey visit1 path \<in> fst ` set (PathLimits (config rl))
            \<and> hasPrefix path (findBucketKey visit1 path)
            \<and> (\<exists>(prefix, limit) \<in> set (PathLimits (config rl)).
                  hasPrefix path prefix \<and>
                  getLimitForPath (config rl) visit2 path = (RPS limit, Burst limit))
         else findBucketKey visit1 path = ''default''
            \<and> getLimitForPath (config rl) visit2 path
                = (DefaultRPS (config rl), DefaultBurst (config rl)))
     \<and> ((\<forall>(q1, l1) \<in> set (PathLimits (config rl)). \<forall>(q2, l2) \<in> set (PathLimits (config rl)).
            hasPrefix path q1 \<and> hasPrefix path q2 \<longrightarrow> q1 = q2)
         \<longrightarrow> findBucketKey visit1 path = longestRegisteredPrefix (config rl) path
           \<and> (\<forall>(prefix, limit) \<in> set (PathLimits (config rl)).
                 prefix = findBucketKey visit1 path \<and> hasPrefix path prefix \<longrightarrow>
                 getLimitForPath (config rl) visit2 path = (RPS limit, Burst limit)))"
proof -
  let ?cfg = "config rl"
  have s1: "set visit1 = set (PathLimits ?cfg)" and s2: "set visit2 = set (PathLimits ?cfg)"
    and d2: "distinct (map fst visit2)"
    using v1 v2 by (simp_all add: visit_of_def)
  have key: "fst (getBucket rl visit1 visit2 now path) = findBucketKey visit1 path"
    by (simp add: getBucket_def Let_def split: option.splits prod.splits)
  have lim: "snd (getBucket rl visit1 visit2 now path) =
         (case buckets rl (findBucketKey visit1 path) of
            Some bucket \<Rightarrow> rl
          | None \<Rightarrow>
              rl\<lparr>buckets := (buckets rl)(findBucketKey visit1 path \<mapsto>
                   newTokenBucket (fst (getLimitForPath ?cfg visit2 path))
                                  (snd (getLimitForPath ?cfg visit2 path)) now)\<rparr>)"
    by (simp add: getBucket_def Let_def split: option.splits prod.splits)
  have sel: "(if \<exists>(prefix, limit) \<in> set (PathLimits ?cfg). hasPrefix path prefix
         then findBucketKey visit1 path \<in> fst ` set (PathLimits ?cfg)
            \<and> hasPrefix path (findBucketKey visit1 path)
            \<and> (\<exists>(prefix, limit) \<in> set (PathLimits ?cfg).
                  hasPrefix path prefix \<and>
                  getLimitForPath ?cfg visit2 path = (RPS limit, Burst limit))
         else findBucketKey visit1 path = ''default''
            \<and> getLimitForPath ?cfg visit2 path = (DefaultRPS ?cfg, DefaultBurst ?cfg))"
  proof (cases "\<exists>(prefix, limit) \<in> set (PathLimits ?cfg). hasPrefix path prefix")
    case True
    then show ?thesis
      using findBucketKey_hit[of visit1 path] getLimitForPath_hit[of visit2 path ?cfg] s1 s2
      by simp
  next
    case False
    then show ?thesis
      using findBucketKey_miss[of visit1 path] getLimitForPath_miss[of visit2 path ?cfg] s1 s2
      by simp
  qed
  have uniq: "findBucketKey visit1 path = longestRegisteredPrefix ?cfg path
           \<and> (\<forall>(prefix, limit) \<in> set (PathLimits ?cfg).
                 prefix = findBucketKey visit1 path \<and> hasPrefix path prefix \<longrightarrow>
                 getLimitForPath ?cfg visit2 path = (RPS limit, Burst limit))"
    if u: "\<forall>(q1, l1) \<in> set (PathLimits ?cfg). \<forall>(q2, l2) \<in> set (PathLimits ?cfg).
            hasPrefix path q1 \<and> hasPrefix path q2 \<longrightarrow> q1 = q2"
  proof (cases "\<exists>(prefix, limit) \<in> set (PathLimits ?cfg). hasPrefix path prefix")
    case True
    have k: "findBucketKey visit1 path \<in> fst ` set (PathLimits ?cfg)
              \<and> hasPrefix path (findBucketKey visit1 path)"
      using findBucketKey_hit[of visit1 path] True s1 by simp
    have all: "\<forall>q \<in> fst ` set (PathLimits ?cfg). hasPrefix path q \<longrightarrow> q = findBucketKey visit1 path"
      using u k by fastforce
    have a: "findBucketKey visit1 path = longestRegisteredPrefix ?cfg path"
      using longest_unique[of "findBucketKey visit1 path" ?cfg path] k all by simp
    have b: "getLimitForPath ?cfg visit2 path = (RPS limit, Burst limit)"
      if "(prefix, limit) \<in> set (PathLimits ?cfg)" "prefix = findBucketKey visit1 path"
         "hasPrefix path prefix" for prefix limit
    proof (rule getLimitForPath_unique[OF d2, of prefix limit])
      show "(prefix, limit) \<in> set visit2" using that s2 by simp
      show "hasPrefix path prefix" using that by simp
      show "\<forall>(q, l) \<in> set visit2. hasPrefix path q \<longrightarrow> q = prefix"
      proof (intro ballI, clarify)
        fix q l assume "(q, l) \<in> set visit2" and "hasPrefix path q"
        then have "q \<in> fst ` set (PathLimits ?cfg)" using s2 by force
        then show "q = prefix" using all \<open>hasPrefix path q\<close> that(2) by blast
      qed
    qed
    show ?thesis using a b by auto
  next
    case False
    then show ?thesis
      using findBucketKey_miss[of visit1 path] longest_none[of ?cfg path] s1 by auto
  qed
  show ?thesis
  proof (intro conjI impI)
    show "fst (getBucket rl visit1 visit2 now path) = findBucketKey visit1 path"
      by (rule key)
    show "snd (getBucket rl visit1 visit2 now path) =
         (case buckets rl (findBucketKey visit1 path) of
            Some bucket \<Rightarrow> rl
          | None \<Rightarrow>
              rl\<lparr>buckets := (buckets rl)(findBucketKey visit1 path \<mapsto>
                   newTokenBucket (fst (getLimitForPath ?cfg visit2 path))
                                  (snd (getLimitForPath ?cfg visit2 path)) now)\<rparr>)"
      by (rule lim)
    show "(if \<exists>(prefix, limit) \<in> set (PathLimits ?cfg). hasPrefix path prefix
         then findBucketKey visit1 path \<in> fst ` set (PathLimits ?cfg)
            \<and> hasPrefix path (findBucketKey visit1 path)
            \<and> (\<exists>(prefix, limit) \<in> set (PathLimits ?cfg).
                  hasPrefix path prefix \<and>
                  getLimitForPath ?cfg visit2 path = (RPS limit, Burst limit))
         else findBucketKey visit1 path = ''default''
            \<and> getLimitForPath ?cfg visit2 path = (DefaultRPS ?cfg, DefaultBurst ?cfg))"
      by (rule sel)
  next
    assume u: "\<forall>(q1, l1) \<in> set (PathLimits ?cfg). \<forall>(q2, l2) \<in> set (PathLimits ?cfg).
            hasPrefix path q1 \<and> hasPrefix path q2 \<longrightarrow> q1 = q2"
    show "findBucketKey visit1 path = longestRegisteredPrefix ?cfg path"
      using uniq[OF u] by (rule conjunct1)
    show "\<forall>(prefix, limit) \<in> set (PathLimits ?cfg).
                 prefix = findBucketKey visit1 path \<and> hasPrefix path prefix \<longrightarrow>
                 getLimitForPath ?cfg visit2 path = (RPS limit, Burst limit)"
      using uniq[OF u] by (rule conjunct2)
  qed
qed

theorem bucket_selection_witness:
  "visit_of (config (NewRateLimiter DefaultRateLimitConfig)) (rev (PathLimits DefaultRateLimitConfig))
   \<and> visit_of (config (NewRateLimiter DefaultRateLimitConfig)) (PathLimits DefaultRateLimitConfig)
   \<and> getBucket (NewRateLimiter DefaultRateLimitConfig) (rev (PathLimits DefaultRateLimitConfig))
        (PathLimits DefaultRateLimitConfig) 0 ''/api/v2/shop/get_shop_info''
      = (''/api/v2/shop/'', (NewRateLimiter DefaultRateLimitConfig)
           \<lparr>buckets := (buckets (NewRateLimiter DefaultRateLimitConfig))
              (''/api/v2/shop/'' \<mapsto> newTokenBucket 10 15 0)\<rparr>)
   \<and> findBucketKey (rev (PathLimits DefaultRateLimitConfig)) ''/api/v2/shop/get_shop_info''
       = longestRegisteredPrefix DefaultRateLimitConfig ''/api/v2/shop/get_shop_info''
   \<and> getBucket (NewRateLimiter DefaultRateLimitConfig) (rev (PathLimits DefaultRateLimitConfig))
        (PathLimits DefaultRateLimitConfig) 0 ''/api/v1/ping''
      = (''default'', (NewRateLimiter DefaultRateLimitConfig)
           \<lparr>buckets := (buckets (NewRateLimiter DefaultRateLimitConfig))
              (''default'' \<mapsto> newTokenBucket 10 20 0)\<rparr>)"
proof -
  have h1: "visit_of (config (NewRateLimiter DefaultRateLimitConfig))
              (rev (PathLimits DefaultRateLimitConfig))"
    by (simp only: visit_of_def set_rev rev_map[symmetric] distinct_rev)
       (simp add: DefaultRateLimitConfig_def NewRateLimiter_def)
  have h2: "visit_of (config (NewRateLimiter DefaultRateLimitConfig))
              (PathLimits DefaultRateLimitConfig)"
    by (simp add: visit_of_def DefaultRateLimitConfig_def NewRateLimiter_def)
  show ?thesis
    using h1 h2
      bucket_selection [OF h1 h2, of 0 "''/api/v2/shop/get_shop_info''"]
      bucket_selection [OF h1 h2, of 0 "''/api/v1/ping''"]
    by (simp add: DefaultRateLimitConfig_def hasPrefix_def NewRateLimiter_def prod_eq_iff)
qed

text \<open>
  The claim as stated fails: with the prefixes \<open>/api/\<close> and \<open>/api/v2/\<close> registered and
  the map visited in that order, a path under \<open>/api/v2/\<close> gets the bucket of the shorter
  prefix; and when the second loop visits the map in the other order, that bucket is
  made with the limits registered for \<open>/api/v2/\<close>.
\<close>

theorem bucket_selection_counterexample:
  "visit_of nestedLimits (PathLimits nestedLimits)
   \<and> visit_of nestedLimits (rev (PathLimits nestedLimits))
   \<and> findBucketKey (PathLimits nestedLimits) ''/api/v2/shop/get_shop_info'' = ''/api/''
   \<and> longestRegisteredPrefix nestedLimits ''/api/v2/shop/get_shop_info'' = ''/api/v2/''
   \<and> findBucketKey (PathLimits nestedLimits) ''/api/v2/shop/get_shop_info''
       \<noteq> longestRegisteredPrefix nestedLimits ''/api/v2/shop/get_shop_info''
   \<and> getBucket (NewRateLimiter nestedLimits) (PathLimits nestedLimits)
        (rev (PathLimits nestedLimits)) 0 ''/api/v2/shop/get_shop_info''
      = (''/api/'', (NewRateLimiter nestedLimits)
           \<lparr>buckets := (buckets (NewRateLimiter nestedLimits))
              (''/api/'' \<mapsto> newTokenBucket 10 20 0)\<rparr>)"
  by (simp add: nestedLimits_def visit_of_def hasPrefix_def longestRegisteredPrefix_def
      getBucket_def NewRateLimiter_def Let_def insert_commute)

section \<open>Webhook signatures\<close>

lemma xor_nat_eq_0_iff: "((a::nat) XOR b = 0) = (a = b)"
proof
  assume h: "a XOR b = 0"
  have "b = (a XOR a) XOR b" by simp
  also have "\<dots> = a XOR (a XOR b)" by (simp only: xor.assoc)
  also have "\<dots> = a" using h by simp
  finally show "a = b" by simp
next
  assume "a = b"
  then show "a XOR b = 0" by simp
qed

lemma constant_time_fold:
  "length xs = length ys \<Longrightarrow>
   (foldl (\<lambda>v (x, y). v OR ((of_char x :: nat) XOR of_char y)) a (zip xs ys) = 0)
     = (a = 0 \<and> xs = ys)"
proof (induction xs ys arbitrary: a rule: list_induct2)
  case Nil
  then show ?case by simp
next
  case (Cons x xs y ys)
  then show ?case by (auto simp: or_eq_0_iff xor_nat_eq_0_iff)
qed

lemma hmac_Equal_iff: "hmac_Equal mac1 mac2 = (mac1 = mac2)"
  using constant_time_fold [of mac1 mac2 0] by (auto simp: hmac_Equal_def)

text \<open>
  Claim C9. For every base URL and body, \<open>VerifyWebhook\<close> accepts the signature that
  the same signer computes over the base URL, a bar and the body, whatever function
  stands for HMAC-SHA256 and whatever the key.
\<close>

theorem VerifyWebhook_roundtrip:
  "VerifyWebhook H s url payload (sign H s (url @ ''|'' @ payload)) = True"
  by (simp add: VerifyWebhook_def Let_def hmac_Equal_iff)

theorem VerifyWebhook_roundtrip_witness:
  "VerifyWebhook (\<lambda>key msg. rev msg @ key) (NewSignature ''k'') ''https://h/cb'' ''{code:3}''
     (sign (\<lambda>key msg. rev msg @ key) (NewSignature ''k'') ''https://h/cb|{code:3}'') = True"
  using VerifyWebhook_roundtrip [of "\<lambda>key msg. rev msg @ key" "NewSignature ''k''"
      "''https://h/cb''" "''{code:3}''"]
  by simp

section \<open>The client's attempts\<close>

text \<open>
  Two facts about the executor's loop for an arbitrary operation: a property of the
  state that every call of the operation preserves holds of the final state, and a
  counter that a call raises by at most one is raised by at most the number of attempts
  that remain.
\<close>

lemma Execute_loop_invariant:
  assumes step: "\<And>s. I s \<Longrightarrow> I (snd (operation s))"
  shows "n = nat (maxAttempts p + 1 - a) \<Longrightarrow> I s \<Longrightarrow>
         I (snd (Execute_loop p ctx rt operation a result s))"
proof (induction n arbitrary: a result s)
  case 0
  then have "\<not> a \<le> maxAttempts p" by simp
  then show ?case using "0.prems"(2) by (subst Execute_loop.simps) simp
next
  case (Suc n)
  obtain err s1 where op: "operation s = (err, s1)" by (cases "operation s")
  have le: "a \<le> maxAttempts p" using Suc.prems(1) by simp
  have I1: "I s1" using step[OF Suc.prems(2)] by (simp add: op)
  have next_ok: "I (snd (Execute_loop p ctx rt operation (a + 1) r s1))" for r
    using Suc.prems(1) I1 by (intro Suc.IH) auto
  show ?case
    using op I1 next_ok le by (subst Execute_loop.simps) (auto simp: Let_def)
qed

lemma Execute_loop_count:
  assumes step: "\<And>s. m (snd (operation s)) \<le> m s + (1::nat)"
  shows "n = nat (maxAttempts p + 1 - a) \<Longrightarrow>
         m (snd (Execute_loop p ctx rt operation a result s)) \<le> m s + n"
proof (induction n arbitrary: a result s)
  case 0
  then have "\<not> a \<le> maxAttempts p" by simp
  then show ?case by (subst Execute_loop.simps) simp
next
  case (Suc n)
  obtain err s1 where op: "operation s = (err, s1)" by (cases "operation s")
  have le: "a \<le> maxAttempts p" using Suc.prems(1) by simp
  have m1: "m s1 \<le> m s + 1" using step[of s] by (simp add: op)
  have next_ok: "m (snd (Execute_loop p ctx rt operation (a + 1) r s1)) \<le> m s + Suc n" for r
  proof -
    have "m (snd (Execute_loop p ctx rt operation (a + 1) r s1)) \<le> m s1 + n"
      using Suc.prems(1) by (intro Suc.IH) auto
    then show ?thesis using m1 by linarith
  qed
  show ?case
    using op m1 next_ok le by (subst Execute_loop.simps) (auto simp: Let_def)
qed


text \<open>What one attempt adds to the trace.\<close>

lemma doRequest_cases:
  "doRequest env req wantResult w = (err, w') \<Longrightarrow>
     (w' = w \<and> (\<exists>msg. err = Some (OtherErr (''failed to marshal request body: '' @ msg))
                     \<or> err = Some (OtherErr (''failed to create request: '' @ msg))))
     \<or> (\<exists>u. w' = emit (HTTPCall (Method req) u) w)"
  by (auto simp: doRequest_def Let_def
      split: option.splits ReqBody.splits HTTPOutcome.splits if_splits)

lemma tryRefreshToken_cases:
  "tryRefreshToken env w = (err, w') \<Longrightarrow>
     (w' = w \<and> err \<noteq> None) \<or> (\<exists>t i. trace w' = trace w @ [RefreshTokenCall t i])"
  by (auto simp: tryRefreshToken_def Let_def emit_def split: option.splits sum.splits if_splits)

lemma Do_attempt_trace:
  "\<exists>evs. trace (snd (Do_attempt env req wantResult w)) = trace w @ evs \<and>
     (evs = [] \<or> (\<exists>u. evs = [HTTPCall (Method req) u])
      \<or> (\<exists>u t i. evs = [HTTPCall (Method req) u, RefreshTokenCall t i]))"
proof -
  obtain err w1 where d: "doRequest env req wantResult w = (err, w1)"
    by (cases "doRequest env req wantResult w")
  obtain rerr w2 where r: "tryRefreshToken env w1 = (rerr, w2)"
    by (cases "tryRefreshToken env w1")
  show ?thesis
    using doRequest_cases[OF d] tryRefreshToken_cases[OF r] d r
    by (auto simp: Do_attempt_def ErrTokenExpired_def emit_def split: option.splits)
qed

lemma Do_attempt_httpCalls:
  "httpCalls (snd (Do_attempt env req wantResult w)) \<le> httpCalls w + 1"
  using Do_attempt_trace[of env req wantResult w] by (auto simp: httpCalls_def)

lemma Do_attempt_refresh_le_http:
  "refreshCalls w + h \<le> httpCalls w + r \<Longrightarrow>
   refreshCalls (snd (Do_attempt env req wantResult w)) + h
     \<le> httpCalls (snd (Do_attempt env req wantResult w)) + r"
  using Do_attempt_trace[of env req wantResult w] by (auto simp: httpCalls_def refreshCalls_def)

lemma Do_attempt_no_wait:
  "filter is_RateLimiterWait (trace w) = evs \<Longrightarrow>
   filter is_RateLimiterWait (trace (snd (Do_attempt env req wantResult w))) = evs"
  using Do_attempt_trace[of env req wantResult w] by auto

lemma Do_snd:
  "snd (Do env ctx rt req wantResult w) =
   snd (Execute_loop (retryPolicy (client w)) ctx rt (Do_attempt env req wantResult) 1 emptyResult w)"
  by (simp add: Do_def Execute_def split: prod.splits)

text \<open>
  No call of \<open>Do\<close> ever waits on the rate limiter, whatever the request, the policy
  and the answers of the network.
\<close>

lemma Do_no_rate_limiter_wait:
  "filter is_RateLimiterWait (trace (snd (Do env ctx rt req wantResult w)))
   = filter is_RateLimiterWait (trace w)"
  unfolding Do_snd
  by (rule Execute_loop_invariant
        [where I = "\<lambda>s. filter is_RateLimiterWait (trace s) = filter is_RateLimiterWait (trace w)"
           and n = "nat (maxAttempts (retryPolicy (client w)) + 1 - 1)"])
     (simp_all add: Do_attempt_no_wait)

text \<open>
  Claim C1. The claim asks for \<open>RateLimiter.Wait\<close> before the HTTP call of every
  attempt. On a plain request that the network answers with 200, \<open>Do\<close> succeeds after
  one HTTP call and the trace holds no wait on the rate limiter.
\<close>

theorem Do_skips_rate_limiter:
  "fst (Do (exampleEnv (\<lambda>n. replyWith 200 [] [])) liveContext exactRuntime exampleRequest False
          (exampleWorld DefaultRetryPolicy None)) = None
   \<and> map is_HTTPCall (trace (snd (Do (exampleEnv (\<lambda>n. replyWith 200 [] [])) liveContext exactRuntime
          exampleRequest False (exampleWorld DefaultRetryPolicy None)))) = [True]
   \<and> filter is_RateLimiterWait (trace (snd (Do (exampleEnv (\<lambda>n. replyWith 200 [] [])) liveContext
          exactRuntime exampleRequest False (exampleWorld DefaultRetryPolicy None)))) = []"
  by (simp add: eval_defs)

text \<open>
  Claim C2, as amended. In one call of \<open>Do\<close> the refresher is called at most once per
  attempt and only in attempts that reached the network: refresh calls are at most as
  many as HTTP calls, which are at most \<open>maxAttempts\<close>. When the refresh of an attempt
  fails, the attempt reports its original error, and if the policy does not retry that
  error the loop ends there with it as \<open>LastError\<close> (for any attempt number), so that
  \<open>Do\<close> returns the original error without a further attempt.
\<close>

theorem Do_refresh_per_attempt:
  "refreshCalls (snd (Do env ctx rt req wantResult w)) + httpCalls w
     \<le> httpCalls (snd (Do env ctx rt req wantResult w)) + refreshCalls w
   \<and> httpCalls (snd (Do env ctx rt req wantResult w))
     \<le> httpCalls w + nat (maxAttempts (retryPolicy (client w)))
   \<and> (1 \<le> maxAttempts (retryPolicy (client w))
      \<and> doRequest env req wantResult w = (Some e, w1)
      \<and> (Error_text ErrTokenExpired = Error_text e \<or> isTokenExpiredError e)
      \<and> tryRefreshToken env w1 = (Some refreshErr, w2)
      \<and> \<not> ShouldRetry (retryPolicy (client w)) (Some e) 1
      \<longrightarrow> Do env ctx rt req wantResult w = (Some e, w2)
          \<and> httpCalls w2 \<le> httpCalls w + 1 \<and> refreshCalls w2 \<le> refreshCalls w + 1)
   \<and> (a \<le> maxAttempts p
      \<and> doRequest env req wantResult s = (Some e', s1)
      \<and> (Error_text ErrTokenExpired = Error_text e' \<or> isTokenExpiredError e')
      \<and> tryRefreshToken env s1 = (Some refreshErr', s2)
      \<and> \<not> ShouldRetry p (Some e') a
      \<longrightarrow> Execute_loop p ctx rt (Do_attempt env req wantResult) a result s
            = (result\<lparr>Attempts := a, LastError := Some e'\<rparr>, s2))"
proof (intro conjI impI)
  assume h: "a \<le> maxAttempts p
      \<and> doRequest env req wantResult s = (Some e', s1)
      \<and> (Error_text ErrTokenExpired = Error_text e' \<or> isTokenExpiredError e')
      \<and> tryRefreshToken env s1 = (Some refreshErr', s2)
      \<and> \<not> ShouldRetry p (Some e') a"
  then have att: "Do_attempt env req wantResult s = (Some e', s2)"
    by (auto simp: Do_attempt_def)
  show "Execute_loop p ctx rt (Do_attempt env req wantResult) a result s
            = (result\<lparr>Attempts := a, LastError := Some e'\<rparr>, s2)"
    using h att by (subst Execute_loop.simps) (simp add: Let_def)
next
  show "refreshCalls (snd (Do env ctx rt req wantResult w)) + httpCalls w
     \<le> httpCalls (snd (Do env ctx rt req wantResult w)) + refreshCalls w"
    unfolding Do_snd
    by (rule Execute_loop_invariant
          [where I = "\<lambda>s. refreshCalls s + httpCalls w \<le> httpCalls s + refreshCalls w"
             and n = "nat (maxAttempts (retryPolicy (client w)) + 1 - 1)"])
       (simp_all add: Do_attempt_refresh_le_http)
next
  show "httpCalls (snd (Do env ctx rt req wantResult w))
     \<le> httpCalls w + nat (maxAttempts (retryPolicy (client w)))"
    unfolding Do_snd
    using Execute_loop_count [where m = httpCalls and operation = "Do_attempt env req wantResult"
        and p = "retryPolicy (client w)" and a = 1 and s = w
        and n = "nat (maxAttempts (retryPolicy (client w)) + 1 - 1)", OF Do_attempt_httpCalls]
    by simp
next
  assume h: "1 \<le> maxAttempts (retryPolicy (client w))
      \<and> doRequest env req wantResult w = (Some e, w1)
      \<and> (Error_text ErrTokenExpired = Error_text e \<or> isTokenExpiredError e)
      \<and> tryRefreshToken env w1 = (Some refreshErr, w2)
      \<and> \<not> ShouldRetry (retryPolicy (client w)) (Some e) 1"
  then have att: "Do_attempt env req wantResult w = (Some e, w2)"
    by (auto simp: Do_attempt_def)
  show "Do env ctx rt req wantResult w = (Some e, w2)"
    using h att by (simp add: Do_def Execute_def Execute_loop.simps emptyResult_def Let_def)
  show "httpCalls w2 \<le> httpCalls w + 1"
    using Do_attempt_httpCalls[of env req wantResult w] att by simp
  show "refreshCalls w2 \<le> refreshCalls w + 1"
    using Do_attempt_trace[of env req wantResult w] att by (auto simp: refreshCalls_def)
qed

theorem Do_refresh_per_attempt_witness:
  "1 \<le> maxAttempts (retryPolicy (client (exampleWorld DefaultRetryPolicy (Some failingRefresher))))
   \<and> fst (doRequest (exampleEnv (\<lambda>n. replyWith 401 CodeAuthError ''token expired'')) exampleRequest False
            (exampleWorld DefaultRetryPolicy (Some failingRefresher)))
       = Some (APIErr (authExpired 401))
   \<and> isTokenExpiredError (APIErr (authExpired 401))
   \<and> fst (tryRefreshToken (exampleEnv (\<lambda>n. replyWith 401 CodeAuthError ''token expired''))
        (snd (doRequest (exampleEnv (\<lambda>n. replyWith 401 CodeAuthError ''token expired'')) exampleRequest
               False (exampleWorld DefaultRetryPolicy (Some failingRefresher)))))
       = Some (OtherErr ''refresh rejected'')
   \<and> \<not> ShouldRetry DefaultRetryPolicy (Some (APIErr (authExpired 401))) 1
   \<and> fst (Do (exampleEnv (\<lambda>n. replyWith 401 CodeAuthError ''token expired'')) liveContext exactRuntime
          exampleRequest False (exampleWorld DefaultRetryPolicy (Some failingRefresher)))
       = Some (APIErr (authExpired 401))
   \<and> httpCalls (snd (Do (exampleEnv (\<lambda>n. replyWith 401 CodeAuthError ''token expired'')) liveContext
          exactRuntime exampleRequest False (exampleWorld DefaultRetryPolicy (Some failingRefresher)))) = 1
   \<and> refreshCalls (snd (Do (exampleEnv (\<lambda>n. replyWith 401 CodeAuthError ''token expired'')) liveContext
          exactRuntime exampleRequest False (exampleWorld DefaultRetryPolicy (Some failingRefresher)))) = 1"
  using Do_refresh_per_attempt
    [of "exampleEnv (\<lambda>n. replyWith 401 CodeAuthError ''token expired'')" liveContext exactRuntime
        exampleRequest False "exampleWorld DefaultRetryPolicy (Some failingRefresher)"
        "APIErr (authExpired 401)"
        "snd (doRequest (exampleEnv (\<lambda>n. replyWith 401 CodeAuthError ''token expired'')) exampleRequest
               False (exampleWorld DefaultRetryPolicy (Some failingRefresher)))"
        "OtherErr ''refresh rejected''"
        "snd (tryRefreshToken (exampleEnv (\<lambda>n. replyWith 401 CodeAuthError ''token expired''))
        (snd (doRequest (exampleEnv (\<lambda>n. replyWith 401 CodeAuthError ''token expired'')) exampleRequest
               False (exampleWorld DefaultRetryPolicy (Some failingRefresher)))))"
        1 DefaultRetryPolicy
        "exampleWorld DefaultRetryPolicy (Some failingRefresher)"
        "APIErr (authExpired 401)"
        "snd (doRequest (exampleEnv (\<lambda>n. replyWith 401 CodeAuthError ''token expired'')) exampleRequest
               False (exampleWorld DefaultRetryPolicy (Some failingRefresher)))"
        "OtherErr ''refresh rejected''"
        "snd (tryRefreshToken (exampleEnv (\<lambda>n. replyWith 401 CodeAuthError ''token expired''))
        (snd (doRequest (exampleEnv (\<lambda>n. replyWith 401 CodeAuthError ''token expired'')) exampleRequest
               False (exampleWorld DefaultRetryPolicy (Some failingRefresher)))))"
        emptyResult]
  by (simp add: eval_defs)

text \<open>
  The claim as stated fails: when every reply is \<open>error_auth\<close> with HTTP status 500
  and the refresher rejects every call, the original error is retryable by its status,
  and \<open>Do\<close> under the default policy makes three HTTP calls and three refresh calls.
\<close>

theorem Do_refresh_counterexample:
  "refreshCalls (snd (Do (exampleEnv (\<lambda>n. replyWith 500 CodeAuthError ''token expired'')) liveContext
          exactRuntime exampleRequest False (exampleWorld DefaultRetryPolicy (Some failingRefresher)))) = 3
   \<and> httpCalls (snd (Do (exampleEnv (\<lambda>n. replyWith 500 CodeAuthError ''token expired'')) liveContext
          exactRuntime exampleRequest False (exampleWorld DefaultRetryPolicy (Some failingRefresher)))) = 3
   \<and> fst (Do (exampleEnv (\<lambda>n. replyWith 500 CodeAuthError ''token expired'')) liveContext
          exactRuntime exampleRequest False (exampleWorld DefaultRetryPolicy (Some failingRefresher)))
      = Some (APIErr (authExpired 500))"
  by (simp add: eval_defs)

text \<open>
  Claim C3. The claim lets only an \<open>error_auth\<close> error whose message has one of the
  known substrings trigger a refresh, as \<open>APIError.isTokenExpired\<close> decides. On a 403
  reply \<open>error_auth\<close> with the message \<open>partner has no permission\<close>, which
  \<open>isTokenExpired\<close> rejects, the client's \<open>isTokenExpiredError\<close> holds and \<open>Do\<close>
  calls the refresher.
\<close>

theorem Do_refreshes_on_any_auth_error:
  "\<not> isTokenExpired (NewAPIErrorWithRequestID CodeAuthError ''partner has no permission'' 403 [])
   \<and> fst (doRequest (exampleEnv (\<lambda>n. replyWith 403 CodeAuthError ''partner has no permission''))
            exampleRequest False (exampleWorld DefaultRetryPolicy (Some workingRefresher)))
      = Some (APIErr (NewAPIErrorWithRequestID CodeAuthError ''partner has no permission'' 403 []))
   \<and> isTokenExpiredError (APIErr (NewAPIErrorWithRequestID CodeAuthError ''partner has no permission'' 403 []))
   \<and> refreshCalls (snd (Do (exampleEnv (\<lambda>n. replyWith 403 CodeAuthError ''partner has no permission''))
         liveContext exactRuntime exampleRequest False
         (exampleWorld DefaultRetryPolicy (Some workingRefresher)))) = 1"
  by (simp add: eval_defs isTokenExpired_def containsAny_def)

end
